theory Spec2Isabelle
  imports Main
begin

section \<open>Strings\<close>

text \<open>
  Python strings are modelled as lists of \<^typ>\<open>char\<close>, each character standing for a
  code point below 256.  On that range \<^verbatim>\<open>str.lower\<close> maps the ASCII capitals
  (65..90) and the Latin-1 capitals (192..222 except the multiplication sign 215) to the
  code point 32 above, and leaves every other character alone.
\<close>

definition lower_char :: "char \<Rightarrow> char" where
  "lower_char c =
     (let n = (of_char c :: nat)
      in if (65 \<le> n \<and> n \<le> 90) \<or> (192 \<le> n \<and> n \<le> 222 \<and> n \<noteq> 215)
         then char_of (n + 32) else c)"

definition lower :: "string \<Rightarrow> string" where
  "lower s = map lower_char s"

text \<open>\<^verbatim>\<open>s.startswith(p)\<close>\<close>

fun startswith :: "string \<Rightarrow> string \<Rightarrow> bool" where
  "startswith s [] = True"
| "startswith [] (p # ps) = False"
| "startswith (c # cs) (p # ps) = (c = p \<and> startswith cs ps)"

text \<open>\<^verbatim>\<open>needle in haystack\<close> on strings: substring containment.\<close>

fun str_in :: "string \<Rightarrow> string \<Rightarrow> bool" where
  "str_in needle [] = (needle = [])"
| "str_in needle (c # cs) = (startswith (c # cs) needle \<or> str_in needle cs)"

text \<open>\<^verbatim>\<open>sep.join(xs)\<close>\<close>

fun join :: "string \<Rightarrow> string list \<Rightarrow> string" where
  "join sep [] = []"
| "join sep [x] = x"
| "join sep (x # y # ys) = x @ sep @ join sep (y # ys)"

definition nl :: string where
  "nl = [CHR 0x0A]"

text \<open>Truthiness of an \<^verbatim>\<open>Optional[str]\<close>: \<^verbatim>\<open>None\<close> and the empty string are false.\<close>

fun truthy :: "string option \<Rightarrow> bool" where
  "truthy None = False"
| "truthy (Some s) = (s \<noteq> [])"

text \<open>\<^verbatim>\<open>x or default\<close> for an \<^verbatim>\<open>Optional[str]\<close> \<^verbatim>\<open>x\<close>.\<close>

fun or_else :: "string option \<Rightarrow> string \<Rightarrow> string" where
  "or_else None d = d"
| "or_else (Some s) d = (if s \<noteq> [] then s else d)"


section \<open>Messages and graph state\<close>

text \<open>
  A message is a \<^verbatim>\<open>HumanMessage\<close>, an \<^verbatim>\<open>AIMessage\<close> or a
  \<^verbatim>\<open>SystemMessage\<close>; its content is a string or a list of parts.  A part is a
  string or a dict.  Of a dict the nodes read two entries only: \<^verbatim>\<open>part.get("type")\<close>
  and the \<^verbatim>\<open>"text"\<close> entry; both are kept as options (\<open>None\<close>: the key is
  absent).  The payload of an image part is read by the completion service alone and is
  left out.
\<close>

datatype role = Human | AI | System

datatype part = Str_part string | Dict_part "string option" "string option"

datatype content = Str string | Parts "part list"

record message =
  role :: role
  content :: content

definition HumanMessage :: "content \<Rightarrow> message" where
  "HumanMessage c = \<lparr>role = Human, content = c\<rparr>"

definition AIMessage :: "content \<Rightarrow> message" where
  "AIMessage c = \<lparr>role = AI, content = c\<rparr>"

definition SystemMessage :: "content \<Rightarrow> message" where
  "SystemMessage c = \<lparr>role = System, content = c\<rparr>"

text \<open>The two kinds of parts \<^verbatim>\<open>chat_endpoint\<close> builds.\<close>

definition text_part :: "string \<Rightarrow> part" where
  "text_part s = Dict_part (Some ''text'') (Some s)"

definition image_part :: part where
  "image_part = Dict_part (Some ''image_url'') None"

text \<open>\<^verbatim>\<open>GraphState\<close> (graph\_state.py).\<close>

record graph_state =
  messages :: "message list"
  agent_decision :: "string option"
  error :: "string option"

text \<open>
  What a node returns: a dict with some of the keys of the state (\<open>None\<close>: the key is
  absent).  The graph merges it into the state: \<^verbatim>\<open>messages\<close> through the reducer
  \<^verbatim>\<open>add_messages\<close>, which appends, the other keys by overwriting.
\<close>

record update =
  upd_agent_decision :: "string option"
  upd_messages :: "message list option"
  upd_error :: "string option"

definition add_messages :: "message list \<Rightarrow> message list \<Rightarrow> message list" where
  "add_messages left right = left @ right"

definition apply_update :: "graph_state \<Rightarrow> update \<Rightarrow> graph_state" where
  "apply_update s u =
     \<lparr>messages = (case upd_messages u of None \<Rightarrow> messages s
                   | Some ms \<Rightarrow> add_messages (messages s) ms),
      agent_decision = (case upd_agent_decision u of None \<Rightarrow> agent_decision s
                   | Some d \<Rightarrow> Some d),
      error = (case upd_error u of None \<Rightarrow> error s | Some e \<Rightarrow> Some e)\<rparr>"

text \<open>\<^verbatim>\<open>RouterOutput\<close> (schemas.py): the decision is one of three literals.\<close>

datatype decision = Agent1 | Agent2 | Clarify

fun decision_str :: "decision \<Rightarrow> string" where
  "decision_str Agent1 = ''agent1''"
| "decision_str Agent2 = ''agent2''"
| "decision_str Clarify = ''clarify''"

record router_output =
  decision :: decision
  clarification_message :: "string option"

text \<open>
  The three completion models (llm\_models.py) are external: each is a function from the
  messages it is invoked on to the text of the exception it raises (\<open>Inl\<close>) or to its
  result (\<open>Inr\<close>).  The router's model answers in the \<^verbatim>\<open>RouterOutput\<close> shape;
  the agents' models answer with the content of an \<^verbatim>\<open>AIMessage\<close>.
\<close>

record llms =
  router_llm :: "message list \<Rightarrow> string + router_output"
  agent1_llm :: "message list \<Rightarrow> string + content"
  agent2_llm :: "message list \<Rightarrow> string + content"

text \<open>Models that answer the same whatever they are asked.\<close>

definition fixed_llms ::
  "(string + router_output) \<Rightarrow> (string + content) \<Rightarrow> (string + content) \<Rightarrow> llms" where
  "fixed_llms r a1 a2 =
     \<lparr>router_llm = (\<lambda>_. r), agent1_llm = (\<lambda>_. a1), agent2_llm = (\<lambda>_. a2)\<rparr>"


section \<open>The nodes (graph\_nodes.py)\<close>

subsection \<open>Helpers\<close>

text \<open>
  \<^verbatim>\<open>get_text_from_message\<close>: the content itself when it is a string; otherwise the
  loop over the parts returns at the first dict of type \<^verbatim>\<open>"text"\<close>, with its
  \<^verbatim>\<open>"text"\<close> entry (\<^verbatim>\<open>""\<close> when absent); the empty string when the loop ends.
\<close>

fun text_of_parts :: "part list \<Rightarrow> string" where
  "text_of_parts [] = []"
| "text_of_parts (Str_part s # ps) = text_of_parts ps"
| "text_of_parts (Dict_part ty tx # ps) =
     (if ty = Some ''text'' then (case tx of None \<Rightarrow> [] | Some t \<Rightarrow> t)
      else text_of_parts ps)"

definition get_text_from_message :: "message \<Rightarrow> string" where
  "get_text_from_message m =
     (case content m of Str s \<Rightarrow> s | Parts ps \<Rightarrow> text_of_parts ps)"

text \<open>\<^verbatim>\<open>has_images_in_message\<close>: some part is a dict of type \<^verbatim>\<open>"image_url"\<close>.\<close>

fun images_in_parts :: "part list \<Rightarrow> bool" where
  "images_in_parts [] = False"
| "images_in_parts (Str_part s # ps) = images_in_parts ps"
| "images_in_parts (Dict_part ty tx # ps) =
     (if ty = Some ''image_url'' then True else images_in_parts ps)"

definition has_images_in_message :: "message \<Rightarrow> bool" where
  "has_images_in_message m =
     (case content m of Str s \<Rightarrow> False | Parts ps \<Rightarrow> images_in_parts ps)"

subsection \<open>The router\<close>

text \<open>One line of the transcript: the role prefix and the message's text.\<close>

definition transcript_line :: "message \<Rightarrow> string" where
  "transcript_line msg =
     (if role msg = Human then ''User'' else ''Assistant'') @ '': '' @ get_text_from_message msg"

text \<open>The instruction prompt, around the transcript and the image flag.\<close>

definition prompt_text :: "string \<Rightarrow> bool \<Rightarrow> string" where
  \<open>prompt_text conversation_history_text has_images_in_last_message =
     join nl
      [''You are an expert router for a real estate assistant chatbot. Classify the user's *latest* request based on the conversation history provided.'',
       [],
       ''Available Agents:'',
       ''1.  **Agent 1 (Issue Detector)**: Handles visual inspection. Requires images *in the latest message*. Choose 'agent1' if images are present in the last message AND the query concerns a visual aspect.'',
       ''2.  **Agent 2 (Tenancy FAQ)**: Handles text-only tenancy questions (laws, agreements, etc.). Choose 'agent2' if the latest query is about these topics and no relevant images are present in the last message.'',
       ''3.  **Clarification**: Handles simple conversation, greetings, remembers previous context, or asks for more details. Choose 'clarify' if unsure, if more info is needed (e.g., location), for simple chat (like remembering a name based on history), or if the request doesn't fit Agent 1 or 2. Be friendly and act as an assistant.'',
       [],
       ''Conversation History:'',
       ''--- START HISTORY ---'',
       conversation_history_text,
       ''--- END HISTORY ---'',
       [],
       ''Images provided in the *latest* user message: ''
         @ (if has_images_in_last_message then ''Yes'' else ''No''),
       [],
       ''Based on the *latest* user request within the context of the history, respond using the 'RouterOutput' structure:'',
       ''{'',
       ''  "decision": "'agent1' | 'agent2' | 'clarify'",'',
       ''  "clarification_message": "string | null" # ONLY provide if decision is 'clarify' AND you need to ask the user something OR provide a conversational reply. If you remember something (like a name) just make the decision 'clarify' and set this message to the answer.'',
       ''}'']\<close>

definition faq_keywords :: "string list" where
  "faq_keywords =
     [''lease'', ''rent'', ''landlord'', ''tenant'', ''deposit'', ''agreement'',
      ''eviction'', ''notice'', ''law'', ''rights'']"

definition no_image_message :: string where
  "no_image_message = ''It looks like you might need help with a visual issue, but you didn't provide an image in your last message. Could you upload one? Or is your question about something else?''"

definition how_can_i_help_message :: string where
  "how_can_i_help_message = ''How can I help you further? Please ask a question about a property issue (with an image if needed) or a tenancy topic.''"

definition no_user_message :: string where
  "no_user_message = ''Something went wrong, no user message found.''"

definition routing_issue_message :: string where
  "routing_issue_message = ''Sorry, I encountered an issue routing your request. Could you please rephrase or specify if it's about a visual issue (with image) or a tenancy question?''"

text \<open>
  The override logic of \<^verbatim>\<open>route_request\<close>: from the image flag, the text of the last
  message and the model's answer to the final decision and the clarification.
\<close>

definition override_logic ::
  "bool \<Rightarrow> string \<Rightarrow> decision \<Rightarrow> string option \<Rightarrow> string \<times> string option" where
  "override_logic has_images_in_last_message last_query_text llm_decision clarification =
     (if has_images_in_last_message \<and> decision_str llm_decision = ''agent2'' then
        (if \<not> list_ex (\<lambda>keyword. str_in keyword (lower last_query_text)) faq_keywords
         then (''agent1'', None)
         else (decision_str llm_decision, clarification))
      else if \<not> has_images_in_last_message \<and> decision_str llm_decision = ''agent1'' then
        (''clarify'', Some (or_else clarification no_image_message))
      else if decision_str llm_decision = ''clarify'' \<and> \<not> truthy clarification then
        (decision_str llm_decision, Some how_can_i_help_message)
      else (decision_str llm_decision, clarification))"

text \<open>
  What the router's model is invoked on: one system message holding the prompt, built
  from the transcript of all messages and the image flag of the last one.
\<close>

definition router_input :: "message list \<Rightarrow> message list" where
  "router_input msgs =
     (let conversation_history_text = join nl (map transcript_line msgs);
          has_images_in_last_message = has_images_in_message (last msgs)
      in [SystemMessage (Str (prompt_text conversation_history_text has_images_in_last_message))])"

text \<open>
  \<^verbatim>\<open>route_request\<close>.  An empty message list is answered at once.  Otherwise the model
  is invoked on the prompt; an exception (\<open>Inl\<close>) is caught and answered with the
  fallback.  The function returns an update in every case: it raises nothing.
\<close>

definition route_request :: "llms \<Rightarrow> graph_state \<Rightarrow> update" where
  "route_request L state =
     (let msgs = messages state in
      if msgs = [] then
        \<lparr>upd_agent_decision = Some ''clarify'',
         upd_messages = Some [AIMessage (Str no_user_message)],
         upd_error = Some ''Routing failed: No messages in state.''\<rparr>
      else
        let last_message = last msgs;
            last_query_text = get_text_from_message last_message;
            has_images_in_last_message = has_images_in_message last_message
        in case router_llm L (router_input msgs) of
             Inl e \<Rightarrow>
               \<lparr>upd_agent_decision = Some ''clarify'',
                upd_messages = Some [AIMessage (Str routing_issue_message)],
                upd_error = Some (''Routing failed: '' @ e)\<rparr>
           | Inr response_object \<Rightarrow>
               (case override_logic has_images_in_last_message last_query_text
                       (decision response_object) (clarification_message response_object) of
                  (final_decision, clarification) \<Rightarrow>
                    \<lparr>upd_agent_decision = Some final_decision,
                     upd_messages =
                       (case clarification of
                          None \<Rightarrow> None
                        | Some c \<Rightarrow>
                            if final_decision = ''clarify'' \<and> c \<noteq> []
                            then Some [AIMessage (Str c)] else None),
                     upd_error = None\<rparr>))"

subsection \<open>The two agents\<close>

datatype exn = IndexError | KeyError | GraphRecursionError

definition agent1_system_prompt :: string where
  "agent1_system_prompt =
     join nl
      [''You are an expert real estate issue detection assistant. Analyze the provided image(s) and the user's query text from the latest message to identify potential property problems (e.g., water damage, mold, cracks).'',
       [],
       ''Provide a clear analysis:'',
       ''1.  **Identify** visible issues.'',
       ''2.  **Explain** potential causes.'',
       ''3.  **Suggest** troubleshooting or professional help.'',
       ''4.  Ask **clarifying questions** if needed.'',
       ''Be concise and helpful. Base your analysis on the latest user message and images.'']"

definition agent2_system_prompt :: "string \<Rightarrow> string" where
  "agent2_system_prompt query_text =
     join nl
      [''You are a helpful assistant knowledgeable about general real estate tenancy topics (laws, agreements, rent, deposits, eviction etc.). Answer the user's question from their latest message.'',
       [],
       ''Provide clear, concise information based on common practices.'',
       ''**Important**: If the question needs specific legal advice or depends on local regulations, state your answer is general and advise the user to mention their location or consult a local expert/organization. Do not invent local laws.'',
       [],
       ''Focus on the latest user query text: '' @ [CHR 0x27] @ take 200 query_text
         @ [CHR 0x27] @ ''...'']"

text \<open>
  \<^verbatim>\<open>history + [user_message] if history else [user_message]\<close>, for a non-empty
  message list \<open>msgs\<close> with \<open>history = msgs[:-1]\<close> and \<open>user_message = msgs[-1]\<close>.
\<close>

definition messages_to_llm :: "message list \<Rightarrow> message list" where
  "messages_to_llm msgs =
     (let user_message = last msgs; history = butlast msgs
      in if history \<noteq> [] then history @ [user_message] else [user_message])"

definition agent1_error_message :: string where
  "agent1_error_message = ''Sorry, I encountered an error analyzing the image(s).''"

definition agent2_error_message :: string where
  "agent2_error_message = ''Sorry, I encountered an error answering your question.''"

text \<open>What each agent's model is invoked on: its system prompt, then the messages.\<close>

definition agent1_input :: "message list \<Rightarrow> message list" where
  "agent1_input msgs = SystemMessage (Str agent1_system_prompt) # messages_to_llm msgs"

definition agent2_input :: "message list \<Rightarrow> message list" where
  "agent2_input msgs =
     (let query_text = get_text_from_message (last msgs)
      in SystemMessage (Str (agent2_system_prompt query_text)) # messages_to_llm msgs)"

text \<open>
  \<^verbatim>\<open>execute_agent1\<close> and \<^verbatim>\<open>execute_agent2\<close>:
  \<^verbatim>\<open>state["messages"][-1]\<close> raises on an empty list, outside the \<^verbatim>\<open>try\<close>; an
  exception of the model is caught and answered with an apology and the error.
\<close>

definition execute_agent1 :: "llms \<Rightarrow> graph_state \<Rightarrow> exn + update" where
  "execute_agent1 L state =
     (if messages state = [] then Inl IndexError
      else case agent1_llm L (agent1_input (messages state)) of
             Inr ai_response \<Rightarrow>
               Inr \<lparr>upd_agent_decision = None,
                    upd_messages = Some [AIMessage ai_response],
                    upd_error = None\<rparr>
           | Inl e \<Rightarrow>
               Inr \<lparr>upd_agent_decision = None,
                    upd_messages = Some [AIMessage (Str agent1_error_message)],
                    upd_error = Some (''Agent 1 failed: '' @ e)\<rparr>)"

definition execute_agent2 :: "llms \<Rightarrow> graph_state \<Rightarrow> exn + update" where
  "execute_agent2 L state =
     (if messages state = [] then Inl IndexError
      else case agent2_llm L (agent2_input (messages state)) of
             Inr ai_response \<Rightarrow>
               Inr \<lparr>upd_agent_decision = None,
                    upd_messages = Some [AIMessage ai_response],
                    upd_error = None\<rparr>
           | Inl e \<Rightarrow>
               Inr \<lparr>upd_agent_decision = None,
                    upd_messages = Some [AIMessage (Str agent2_error_message)],
                    upd_error = Some (''Agent 2 failed: '' @ e)\<rparr>)"


section \<open>The graph (graph\_builder.py)\<close>

text \<open>
  What \<^verbatim>\<open>decide_next_node\<close> returns and what an edge leads to: a name, or the
  library's \<^verbatim>\<open>END\<close>.
\<close>

datatype dest = Name string | END

definition decide_next_node :: "graph_state \<Rightarrow> dest" where
  "decide_next_node state =
     (if agent_decision state = Some ''agent1'' then Name ''issue_detector''
      else if agent_decision state = Some ''agent2'' then Name ''faq_agent''
      else if agent_decision state = Some ''clarify'' then Name ''clarify''
      else END)"

text \<open>
  A \<^verbatim>\<open>StateGraph\<close>: the nodes by name, the entry point, the conditional edges of a
  node (the deciding function and the dict from its result to a destination) and the
  plain edges.
\<close>

record state_graph =
  nodes :: "(string \<times> (graph_state \<Rightarrow> exn + update)) list"
  entry_point :: string
  conditional_edges :: "(string \<times> (graph_state \<Rightarrow> dest) \<times> (dest \<times> dest) list) list"
  edges :: "(string \<times> dest) list"

definition build_graph :: "llms \<Rightarrow> state_graph" where
  "build_graph L =
     \<lparr>nodes = [(''router'', \<lambda>state. Inr (route_request L state)),
               (''issue_detector'', execute_agent1 L),
               (''faq_agent'', execute_agent2 L)],
      entry_point = ''router'',
      conditional_edges =
        [(''router'', decide_next_node,
          [(Name ''issue_detector'', Name ''issue_detector''),
           (Name ''faq_agent'', Name ''faq_agent''),
           (Name ''clarify'', END),
           (END, END)])],
      edges = [(''issue_detector'', END), (''faq_agent'', END)]\<rparr>"

text \<open>
  Where the graph goes after node \<open>n\<close> has left the state \<open>s\<close>: through the node's
  conditional edges when it has some (a result missing from the dict is a
  \<^verbatim>\<open>KeyError\<close>), else along its plain edge.
\<close>

definition next_dest :: "state_graph \<Rightarrow> string \<Rightarrow> graph_state \<Rightarrow> exn + dest" where
  "next_dest g n s =
     (case map_of (conditional_edges g) n of
        Some (decide, path_map) \<Rightarrow>
          (case map_of path_map (decide s) of None \<Rightarrow> Inl KeyError | Some d \<Rightarrow> Inr d)
      | None \<Rightarrow> (case map_of (edges g) n of None \<Rightarrow> Inr END | Some d \<Rightarrow> Inr d))"

text \<open>
  Running the graph from a destination: a node is executed, its update merged into the
  state, and the graph moves on, until \<^verbatim>\<open>END\<close>.  The first argument bounds the
  number of nodes executed, as the library's recursion limit does.  The list is the
  names of the nodes executed so far, in order.
\<close>

fun run ::
  "state_graph \<Rightarrow> nat \<Rightarrow> dest \<Rightarrow> graph_state \<Rightarrow> string list
     \<Rightarrow> exn + (graph_state \<times> string list)" where
  "run g limit END s executed = Inr (s, executed)"
| "run g 0 (Name n) s executed = Inl GraphRecursionError"
| "run g (Suc limit) (Name n) s executed =
     (case map_of (nodes g) n of
        None \<Rightarrow> Inl KeyError
      | Some node \<Rightarrow>
          (case node s of
             Inl e \<Rightarrow> Inl e
           | Inr u \<Rightarrow>
               (case next_dest g n (apply_update s u) of
                  Inl e \<Rightarrow> Inl e
                | Inr d \<Rightarrow> run g limit d (apply_update s u) (executed @ [n]))))"

definition recursion_limit :: nat where
  "recursion_limit = 25"

text \<open>
  \<^verbatim>\<open>app_graph.ainvoke(initial_state, config)\<close>: the checkpointer supplies the state
  saved for the session (\<open>None\<close> for a new session); the input is merged into it as an
  update is, and the graph runs from its entry point.
\<close>

definition saved_messages :: "graph_state option \<Rightarrow> message list" where
  "saved_messages checkpoint = (case checkpoint of None \<Rightarrow> [] | Some c \<Rightarrow> messages c)"

definition merge_input :: "graph_state option \<Rightarrow> graph_state \<Rightarrow> graph_state" where
  "merge_input checkpoint input =
     \<lparr>messages = add_messages (saved_messages checkpoint) (messages input),
      agent_decision = agent_decision input,
      error = error input\<rparr>"

definition ainvoke ::
  "llms \<Rightarrow> graph_state option \<Rightarrow> graph_state \<Rightarrow> exn + (graph_state \<times> string list)" where
  "ainvoke L checkpoint input =
     (let g = build_graph L
      in run g recursion_limit (Name (entry_point g)) (merge_input checkpoint input) [])"


section \<open>The chat endpoint (main.py)\<close>

record upload_file =
  content_type :: "string option"
  read_bytes :: "string option"

text \<open>
  The loop over the uploaded files: a file whose content type is missing or does not
  start with \<^verbatim>\<open>image/\<close> is skipped, as is one whose read raises (\<open>None\<close>) or
  returns nothing; every other file adds one image part.
\<close>

fun image_parts :: "upload_file list \<Rightarrow> part list" where
  "image_parts [] = []"
| "image_parts (img # images) =
     (if \<not> truthy (content_type img)
         \<or> \<not> startswith (or_else (content_type img) []) ''image/''
      then image_parts images
      else case read_bytes img of
             None \<Rightarrow> image_parts images
           | Some image_bytes \<Rightarrow>
               if image_bytes = [] then image_parts images
               else image_part # image_parts images)"

definition initial_state :: "string \<Rightarrow> upload_file list \<Rightarrow> graph_state" where
  "initial_state query images =
     \<lparr>messages = [HumanMessage (Parts (text_part query # image_parts images))],
      agent_decision = None,
      error = None\<rparr>"

text \<open>
  \<^verbatim>\<open>[part["text"] for part in content if isinstance(part, dict) and
  part.get("type") == "text"]\<close>: the subscript raises when the key is absent.
\<close>

fun text_parts :: "part list \<Rightarrow> exn + string list" where
  "text_parts [] = Inr []"
| "text_parts (Str_part s # ps) = text_parts ps"
| "text_parts (Dict_part ty tx # ps) =
     (if ty = Some ''text'' then
        (case tx of
           None \<Rightarrow> Inl KeyError
         | Some t \<Rightarrow> (case text_parts ps of Inl e \<Rightarrow> Inl e | Inr ts \<Rightarrow> Inr (t # ts)))
      else text_parts ps)"

text \<open>The response text computed from the final state.\<close>

definition response_text_of :: "graph_state \<Rightarrow> exn + string" where
  "response_text_of final_state =
     (let error_message = error final_state;
          all_messages = messages final_state;
          response_text =
            (if truthy error_message
             then ''An error occurred: '' @ or_else error_message [] else [])
      in if response_text = [] \<and> all_messages \<noteq> [] \<and> role (last all_messages) = AI then
           (case content (last all_messages) of
              Str s \<Rightarrow> Inr s
            | Parts ps \<Rightarrow>
                (case text_parts ps of
                   Inl e \<Rightarrow> Inl e
                 | Inr ts \<Rightarrow>
                     Inr (if ts \<noteq> [] then join nl ts
                          else ''Received a non-standard response.'')))
         else if response_text = [] then
           Inr (if all_messages \<noteq> [] \<and> role (last all_messages) = Human
                then ''I received your message, but I'm unable to provide a further response at this time.''
                else ''Chatbot failed to generate a valid response.'')
         else Inr response_text)"

datatype http_exception = HTTPException nat string

record chat_response =
  response :: string
  session_id :: string

text \<open>
  \<^verbatim>\<open>chat_endpoint\<close>, with the graph loaded.  An exception of the graph or of the
  response handling becomes the status 500.
\<close>

definition chat_endpoint ::
  "llms \<Rightarrow> graph_state option \<Rightarrow> string \<Rightarrow> string \<Rightarrow> upload_file list
     \<Rightarrow> http_exception + chat_response" where
  "chat_endpoint L checkpoint sid query images =
     (if sid = [] then Inl (HTTPException 400 ''session_id is required.'')
      else case ainvoke L checkpoint (initial_state query images) of
             Inl e \<Rightarrow> Inl (HTTPException 500 ''An unexpected server error occurred.'')
           | Inr (final_state, executed) \<Rightarrow>
               (case response_text_of final_state of
                  Inl e \<Rightarrow> Inl (HTTPException 500 ''An unexpected server error occurred.'')
                | Inr response_text \<Rightarrow>
                    Inr \<lparr>response = response_text, session_id = sid\<rparr>))"


section \<open>Notions of the specification\<close>

text \<open>
  A keyword occurs case-insensitively in a text: some stretch of the text equals the
  keyword once both are put in lower case.
\<close>

definition occurs_ci :: "string \<Rightarrow> string \<Rightarrow> bool" where
  "occurs_ci keyword body =
     (\<exists>pre mid suf. body = pre @ mid @ suf \<and> lower mid = lower keyword)"

text \<open>
  Whole-word matching, the reading the keyword scan does not implement: the words of a
  text are its stretches between spaces, and a text matches when one of its words is a
  keyword in lower case.
\<close>

fun words_of :: "string \<Rightarrow> string list" where
  "words_of [] = [[]]"
| "words_of (c # cs) =
     (if c = CHR '' '' then [] # words_of cs
      else (case words_of cs of [] \<Rightarrow> [[c]] | w # ws \<Rightarrow> (c # w) # ws))"

definition whole_word_match :: "string \<Rightarrow> bool" where
  "whole_word_match body = list_ex (\<lambda>w. lower w \<in> set faq_keywords) (words_of body)"

text \<open>The handler nodes a decision stands for: one for each agent, none otherwise.\<close>

definition handlers_for :: "string option \<Rightarrow> string list" where
  "handlers_for d =
     (if d = Some ''agent1'' then [''issue_detector'']
      else if d = Some ''agent2'' then [''faq_agent''] else [])"

text \<open>
  The text of a message as the specification has it: the concatenation of all its text
  parts.
\<close>

fun concat_text_parts :: "part list \<Rightarrow> string" where
  "concat_text_parts [] = []"
| "concat_text_parts (Str_part s # ps) = concat_text_parts ps"
| "concat_text_parts (Dict_part ty tx # ps) =
     (if ty = Some ''text'' then (case tx of None \<Rightarrow> [] | Some t \<Rightarrow> t) @ concat_text_parts ps
      else concat_text_parts ps)"

definition text_of_all_parts :: "message \<Rightarrow> string" where
  "text_of_all_parts m =
     (case content m of Str s \<Rightarrow> s | Parts ps \<Rightarrow> concat_text_parts ps)"

text \<open>
  The text parts of a list content, the text a part carries, and the text of the first
  text part (the empty string when there is none).
\<close>

fun is_text_part :: "part \<Rightarrow> bool" where
  "is_text_part (Str_part s) = False"
| "is_text_part (Dict_part ty tx) = (ty = Some ''text'')"

fun part_text :: "part \<Rightarrow> string" where
  "part_text (Str_part s) = []"
| "part_text (Dict_part ty tx) = (case tx of None \<Rightarrow> [] | Some t \<Rightarrow> t)"

definition first_text_part :: "part list \<Rightarrow> string" where
  "first_text_part ps =
     (case filter is_text_part ps of [] \<Rightarrow> [] | p # rest \<Rightarrow> part_text p)"


section \<open>Substring containment and the keyword scan\<close>

lemma startswith_iff: "startswith s p \<longleftrightarrow> (\<exists>suf. s = p @ suf)"
  by (induction s p rule: startswith.induct) auto

lemma str_in_iff: "str_in needle h \<longleftrightarrow> (\<exists>pre suf. h = pre @ needle @ suf)"
proof (induction h)
  case Nil
  then show ?case by auto
next
  case (Cons c cs)
  show ?case
  proof
    assume "str_in needle (c # cs)"
    then consider "startswith (c # cs) needle" | "str_in needle cs" by auto
    then show "\<exists>pre suf. c # cs = pre @ needle @ suf"
    proof cases
      case 1
      then obtain suf where "c # cs = needle @ suf" by (auto simp: startswith_iff)
      then have "c # cs = [] @ needle @ suf" by simp
      then show ?thesis by blast
    next
      case 2
      then obtain pre suf where "cs = pre @ needle @ suf" using Cons.IH by blast
      then have "c # cs = (c # pre) @ needle @ suf" by simp
      then show ?thesis by blast
    qed
  next
    assume "\<exists>pre suf. c # cs = pre @ needle @ suf"
    then obtain pre suf where eq: "c # cs = pre @ needle @ suf" by blast
    show "str_in needle (c # cs)"
    proof (cases pre)
      case Nil
      then have "startswith (c # cs) needle" using eq unfolding startswith_iff by auto
      then show ?thesis by simp
    next
      case (Cons a pre')
      then have "cs = pre' @ needle @ suf" using eq by simp
      then show ?thesis using Cons.IH by auto
    qed
  qed
qed

text \<open>
  For a keyword already in lower case, the code's test \<^verbatim>\<open>keyword in text.lower()\<close>
  is case-insensitive occurrence.
\<close>

lemma occurs_ci_code:
  assumes "lower keyword = keyword"
  shows "occurs_ci keyword body \<longleftrightarrow> str_in keyword (lower body)"
proof
  assume "occurs_ci keyword body"
  then obtain pre mid suf where "body = pre @ mid @ suf" "lower mid = lower keyword"
    by (auto simp: occurs_ci_def)
  then have "lower body = lower pre @ keyword @ lower suf"
    using assms by (simp add: lower_def)
  then show "str_in keyword (lower body)" unfolding str_in_iff by blast
next
  assume "str_in keyword (lower body)"
  then obtain p s where "map lower_char body = p @ keyword @ s"
    unfolding str_in_iff lower_def by blast
  then obtain pre rest where a: "body = pre @ rest" "map lower_char rest = keyword @ s"
    using map_eq_append_conv [of lower_char body p "keyword @ s"] by metis
  then obtain mid suf where b: "rest = mid @ suf" "map lower_char mid = keyword"
    using map_eq_append_conv [of lower_char rest keyword s] by metis
  have "lower mid = lower keyword" using b assms by (simp add: lower_def)
  then show "occurs_ci keyword body" using a b unfolding occurs_ci_def by blast
qed

lemma faq_keywords_lower: "kw \<in> set faq_keywords \<Longrightarrow> lower kw = kw"
  unfolding faq_keywords_def by (auto; code_simp)

lemma any_keyword_iff:
  "list_ex (\<lambda>keyword. str_in keyword (lower body)) faq_keywords
     \<longleftrightarrow> (\<exists>kw \<in> set faq_keywords. occurs_ci kw body)"
  by (auto simp: list_ex_iff occurs_ci_code faq_keywords_lower)


section \<open>The router\<close>

lemma no_image_message_nonempty: "no_image_message \<noteq> []"
  by (simp add: no_image_message_def)

lemma how_can_i_help_message_nonempty: "how_can_i_help_message \<noteq> []"
  by (simp add: how_can_i_help_message_def)

text \<open>The three ways through \<^verbatim>\<open>route_request\<close>.\<close>

lemma route_request_success:
  assumes "messages state \<noteq> []"
    and "router_llm L (router_input (messages state)) = Inr r"
  shows "route_request L state =
     (case override_logic (has_images_in_message (last (messages state)))
             (get_text_from_message (last (messages state)))
             (decision r) (clarification_message r) of
        (final_decision, clarification) \<Rightarrow>
          \<lparr>upd_agent_decision = Some final_decision,
           upd_messages =
             (case clarification of
                None \<Rightarrow> None
              | Some c \<Rightarrow>
                  if final_decision = ''clarify'' \<and> c \<noteq> []
                  then Some [AIMessage (Str c)] else None),
           upd_error = None\<rparr>)"
  using assms by (simp add: route_request_def Let_def)

lemma route_request_failure:
  assumes "messages state \<noteq> []"
    and "router_llm L (router_input (messages state)) = Inl e"
  shows "route_request L state =
     \<lparr>upd_agent_decision = Some ''clarify'',
      upd_messages = Some [AIMessage (Str routing_issue_message)],
      upd_error = Some (''Routing failed: '' @ e)\<rparr>"
  using assms by (simp add: route_request_def Let_def)

lemma route_request_empty:
  assumes "messages state = []"
  shows "route_request L state =
     \<lparr>upd_agent_decision = Some ''clarify'',
      upd_messages = Some [AIMessage (Str no_user_message)],
      upd_error = Some ''Routing failed: No messages in state.''\<rparr>"
  using assms by (simp add: route_request_def)

text \<open>
  Claim C1.  The last message has an image part and the model answers
  \<^verbatim>\<open>agent2\<close>.  When none of the ten keywords occurs case-insensitively in the text
  the router reads from the last message, the decision becomes \<^verbatim>\<open>agent1\<close> and the
  clarification is dropped; when one occurs, the decision stays \<^verbatim>\<open>agent2\<close>.  In
  both cases the router adds no message.
\<close>

theorem C1_faq_keyword_override:
  assumes "messages state \<noteq> []"
    and "has_images_in_message (last (messages state))"
    and "router_llm L (router_input (messages state)) = Inr r"
    and "decision r = Agent2"
  shows "route_request L state =
           \<lparr>upd_agent_decision =
              Some (if \<exists>kw \<in> set faq_keywords.
                         occurs_ci kw (get_text_from_message (last (messages state)))
                    then ''agent2'' else ''agent1''),
            upd_messages = None, upd_error = None\<rparr>
       \<and> ((\<forall>kw \<in> set faq_keywords.
              \<not> occurs_ci kw (get_text_from_message (last (messages state))))
            \<longrightarrow> snd (override_logic True (get_text_from_message (last (messages state)))
                        Agent2 (clarification_message r)) = None)"
proof -
  let ?t = "get_text_from_message (last (messages state))"
  let ?c = "clarification_message r"
  have ov: "override_logic True ?t Agent2 ?c =
        (if \<exists>kw \<in> set faq_keywords. occurs_ci kw ?t then (''agent2'', ?c) else (''agent1'', None))"
    by (simp add: override_logic_def any_keyword_iff)
  have "route_request L state =
      (case override_logic True ?t Agent2 ?c of
        (final_decision, clarification) \<Rightarrow>
          \<lparr>upd_agent_decision = Some final_decision,
           upd_messages =
             (case clarification of
                None \<Rightarrow> None
              | Some c \<Rightarrow>
                  if final_decision = ''clarify'' \<and> c \<noteq> []
                  then Some [AIMessage (Str c)] else None),
           upd_error = None\<rparr>)"
    using route_request_success [OF assms(1) assms(3)] assms(2) assms(4) by simp
  then have "route_request L state =
           \<lparr>upd_agent_decision =
              Some (if \<exists>kw \<in> set faq_keywords. occurs_ci kw ?t then ''agent2'' else ''agent1''),
            upd_messages = None, upd_error = None\<rparr>"
    unfolding ov by (simp split: option.splits)
  moreover have "(\<forall>kw \<in> set faq_keywords. \<not> occurs_ci kw ?t)
       \<longrightarrow> snd (override_logic True ?t Agent2 ?c) = None"
    unfolding ov by simp
  ultimately show ?thesis by blast
qed

theorem C1_faq_keyword_override_witness:
  "route_request
     (fixed_llms (Inr \<lparr>decision = Agent2, clarification_message = Some ''Which lease?''\<rparr>)
        (Inl []) (Inl []))
     \<lparr>messages = [HumanMessage (Parts [text_part ''there's mold on my ceiling'', image_part])],
      agent_decision = None, error = None\<rparr>
   = \<lparr>upd_agent_decision = Some ''agent1'', upd_messages = None, upd_error = None\<rparr>
  \<and> route_request
     (fixed_llms (Inr \<lparr>decision = Agent2, clarification_message = None\<rparr>) (Inl []) (Inl []))
     \<lparr>messages = [HumanMessage (Parts [text_part ''Is this allowed by my LEASE?'', image_part])],
      agent_decision = None, error = None\<rparr>
   = \<lparr>upd_agent_decision = Some ''agent2'', upd_messages = None, upd_error = None\<rparr>"
proof -
  let ?r1 = "\<lparr>decision = Agent2, clarification_message = Some ''Which lease?''\<rparr>"
  let ?L1 = "fixed_llms (Inr ?r1) (Inl []) (Inl [])"
  let ?s1 = "\<lparr>messages = [HumanMessage (Parts [text_part ''there's mold on my ceiling'', image_part])],
      agent_decision = None, error = None\<rparr>"
  let ?r2 = "\<lparr>decision = Agent2, clarification_message = None\<rparr>"
  let ?L2 = "fixed_llms (Inr ?r2) (Inl []) (Inl [])"
  let ?s2 = "\<lparr>messages = [HumanMessage (Parts [text_part ''Is this allowed by my LEASE?'', image_part])],
      agent_decision = None, error = None\<rparr>"
  have a1: "messages ?s1 \<noteq> []" and a2: "messages ?s2 \<noteq> []" by simp_all
  have b1: "has_images_in_message (last (messages ?s1))"
    and b2: "has_images_in_message (last (messages ?s2))"
    by (simp_all add: has_images_in_message_def HumanMessage_def text_part_def image_part_def)
  have c1: "router_llm ?L1 (router_input (messages ?s1)) = Inr ?r1"
    and c2: "router_llm ?L2 (router_input (messages ?s2)) = Inr ?r2"
    by (simp_all add: fixed_llms_def)
  have d1: "decision ?r1 = Agent2" and d2: "decision ?r2 = Agent2" by simp_all
  have k1: "\<not> (\<exists>kw \<in> set faq_keywords.
               occurs_ci kw (get_text_from_message (last (messages ?s1))))"
    unfolding any_keyword_iff [symmetric] by code_simp
  have k2: "\<exists>kw \<in> set faq_keywords.
               occurs_ci kw (get_text_from_message (last (messages ?s2)))"
    unfolding any_keyword_iff [symmetric] by code_simp
  from C1_faq_keyword_override [OF a1 b1 c1 d1] k1
       C1_faq_keyword_override [OF a2 b2 c2 d2] k2
  show ?thesis by simp
qed

text \<open>
  Claim C2.  The last message has no image part.  Then the router's decision is never
  \<^verbatim>\<open>agent1\<close>, whatever the model does; and when the model answers
  \<^verbatim>\<open>agent1\<close>, the decision is \<^verbatim>\<open>clarify\<close> and the message added is the
  model's clarification or, when that is missing or empty, the fixed text asking for an
  image.
\<close>

theorem C2_no_image_never_visual:
  assumes "messages state \<noteq> []"
    and "\<not> has_images_in_message (last (messages state))"
  shows "upd_agent_decision (route_request L state) \<noteq> Some ''agent1''
       \<and> (\<forall>r. router_llm L (router_input (messages state)) = Inr r \<and> decision r = Agent1
            \<longrightarrow> route_request L state =
                  \<lparr>upd_agent_decision = Some ''clarify'',
                   upd_messages = Some [AIMessage (Str
                      (case clarification_message r of
                         None \<Rightarrow> no_image_message
                       | Some c \<Rightarrow> if c = [] then no_image_message else c))],
                   upd_error = None\<rparr>)"
proof (intro conjI allI impI)
  show "upd_agent_decision (route_request L state) \<noteq> Some ''agent1''"
  proof (cases "router_llm L (router_input (messages state))")
    case (Inl e)
    then show ?thesis using route_request_failure [OF assms(1) Inl] by simp
  next
    case (Inr r)
    show ?thesis
      using route_request_success [OF assms(1) Inr] assms(2)
      by (cases "decision r") (simp_all add: override_logic_def split: prod.splits)
  qed
next
  fix r
  assume a: "router_llm L (router_input (messages state)) = Inr r \<and> decision r = Agent1"
  then show "route_request L state =
                  \<lparr>upd_agent_decision = Some ''clarify'',
                   upd_messages = Some [AIMessage (Str
                      (case clarification_message r of
                         None \<Rightarrow> no_image_message
                       | Some c \<Rightarrow> if c = [] then no_image_message else c))],
                   upd_error = None\<rparr>"
    using route_request_success [OF assms(1), of L r] assms(2) no_image_message_nonempty
    by (cases "clarification_message r") (simp_all add: override_logic_def)
qed

theorem C2_no_image_never_visual_witness:
  "upd_agent_decision (route_request
     (fixed_llms (Inr \<lparr>decision = Agent1, clarification_message = None\<rparr>) (Inl []) (Inl []))
     \<lparr>messages = [HumanMessage (Parts [text_part ''there is a crack in my wall''])],
      agent_decision = None, error = None\<rparr>) \<noteq> Some ''agent1''
   \<and> route_request
     (fixed_llms (Inr \<lparr>decision = Agent1, clarification_message = None\<rparr>) (Inl []) (Inl []))
     \<lparr>messages = [HumanMessage (Parts [text_part ''there is a crack in my wall''])],
      agent_decision = None, error = None\<rparr>
     = \<lparr>upd_agent_decision = Some ''clarify'',
        upd_messages = Some [AIMessage (Str no_image_message)],
        upd_error = None\<rparr>"
proof -
  let ?r = "\<lparr>decision = Agent1, clarification_message = None\<rparr>"
  let ?L = "fixed_llms (Inr ?r) (Inl []) (Inl [])"
  let ?s = "\<lparr>messages = [HumanMessage (Parts [text_part ''there is a crack in my wall''])],
      agent_decision = None, error = None\<rparr>"
  have a: "messages ?s \<noteq> []" by simp
  have b: "\<not> has_images_in_message (last (messages ?s))"
    by (simp add: has_images_in_message_def HumanMessage_def text_part_def)
  have c: "router_llm ?L (router_input (messages ?s)) = Inr ?r \<and> decision ?r = Agent1"
    by (simp add: fixed_llms_def)
  from C2_no_image_never_visual [OF a b, of ?L] c show ?thesis by simp
qed

text \<open>
  Claim C10.  The keyword scan is substring containment, not whole-word matching: the
  text \<open>My parent took this photo\<close> has no keyword among its words, yet \<open>rent\<close> is
  found inside \<open>parent\<close>, so with an image attached and the model answering
  \<^verbatim>\<open>agent2\<close> the override does not fire and the decision stays \<^verbatim>\<open>agent2\<close>.
\<close>

theorem C10_keyword_scan_is_substring:
  "\<not> whole_word_match ''My parent took this photo''
   \<and> str_in ''rent'' (lower ''My parent took this photo'')
   \<and> route_request
        (fixed_llms (Inr \<lparr>decision = Agent2, clarification_message = None\<rparr>) (Inl []) (Inl []))
        \<lparr>messages = [HumanMessage (Parts [text_part ''My parent took this photo'', image_part])],
         agent_decision = None, error = None\<rparr>
      = \<lparr>upd_agent_decision = Some ''agent2'', upd_messages = None, upd_error = None\<rparr>"
proof (intro conjI)
  show "\<not> whole_word_match ''My parent took this photo''" by code_simp
  show "str_in ''rent'' (lower ''My parent took this photo'')" by code_simp
  show "route_request
        (fixed_llms (Inr \<lparr>decision = Agent2, clarification_message = None\<rparr>) (Inl []) (Inl []))
        \<lparr>messages = [HumanMessage (Parts [text_part ''My parent took this photo'', image_part])],
         agent_decision = None, error = None\<rparr>
      = \<lparr>upd_agent_decision = Some ''agent2'', upd_messages = None, upd_error = None\<rparr>"
    by code_simp
qed


section \<open>The graph\<close>

lemma next_dest_router:
  "next_dest (build_graph L) ''router'' s =
     Inr (if agent_decision s = Some ''agent1'' then Name ''issue_detector''
          else if agent_decision s = Some ''agent2'' then Name ''faq_agent''
          else END)"
  by (simp add: next_dest_def build_graph_def decide_next_node_def)

lemma next_dest_agents:
  "next_dest (build_graph L) ''issue_detector'' s = Inr END"
  "next_dest (build_graph L) ''faq_agent'' s = Inr END"
  by (simp_all add: next_dest_def build_graph_def)

lemma nodes_build_graph:
  "map_of (nodes (build_graph L)) ''router'' = Some (\<lambda>state. Inr (route_request L state))"
  "map_of (nodes (build_graph L)) ''issue_detector'' = Some (execute_agent1 L)"
  "map_of (nodes (build_graph L)) ''faq_agent'' = Some (execute_agent2 L)"
  by (simp_all add: build_graph_def)

lemma execute_agent1_result:
  assumes "messages s \<noteq> []"
  shows "\<exists>c e. execute_agent1 L s =
           Inr \<lparr>upd_agent_decision = None, upd_messages = Some [AIMessage c], upd_error = e\<rparr>"
  using assms by (simp add: execute_agent1_def AIMessage_def split: sum.splits)

lemma execute_agent2_result:
  assumes "messages s \<noteq> []"
  shows "\<exists>c e. execute_agent2 L s =
           Inr \<lparr>upd_agent_decision = None, upd_messages = Some [AIMessage c], upd_error = e\<rparr>"
  using assms by (simp add: execute_agent2_def Let_def AIMessage_def split: sum.splits)

lemma run_issue_detector:
  assumes "messages s \<noteq> []"
  shows "\<exists>fs c. run (build_graph L) (Suc limit) (Name ''issue_detector'') s executed =
            Inr (fs, executed @ [''issue_detector''])
          \<and> messages fs = messages s @ [AIMessage c]
          \<and> agent_decision fs = agent_decision s"
proof -
  obtain c e where "execute_agent1 L s =
      Inr \<lparr>upd_agent_decision = None, upd_messages = Some [AIMessage c], upd_error = e\<rparr>"
    using execute_agent1_result [OF assms] by blast
  then have "run (build_graph L) (Suc limit) (Name ''issue_detector'') s executed =
            Inr (apply_update s \<lparr>upd_agent_decision = None, upd_messages = Some [AIMessage c], upd_error = e\<rparr>,
                 executed @ [''issue_detector''])"
    by (simp add: nodes_build_graph next_dest_agents)
  moreover have "messages (apply_update s \<lparr>upd_agent_decision = None, upd_messages = Some [AIMessage c], upd_error = e\<rparr>)
      = messages s @ [AIMessage c]"
    by (simp add: apply_update_def add_messages_def)
  moreover have "agent_decision (apply_update s \<lparr>upd_agent_decision = None, upd_messages = Some [AIMessage c], upd_error = e\<rparr>)
      = agent_decision s"
    by (simp add: apply_update_def)
  ultimately show ?thesis by blast
qed

lemma AIMessage_eq: "AIMessage a = AIMessage b \<longleftrightarrow> a = b"
  by (simp add: AIMessage_def)

lemma run_faq_agent:
  assumes "messages s \<noteq> []"
  shows "\<exists>fs c. run (build_graph L) (Suc limit) (Name ''faq_agent'') s executed =
            Inr (fs, executed @ [''faq_agent''])
          \<and> messages fs = messages s @ [AIMessage c]
          \<and> agent_decision fs = agent_decision s"
proof -
  obtain c e where "execute_agent2 L s =
      Inr \<lparr>upd_agent_decision = None, upd_messages = Some [AIMessage c], upd_error = e\<rparr>"
    using execute_agent2_result [OF assms] by blast
  then have "run (build_graph L) (Suc limit) (Name ''faq_agent'') s executed =
            Inr (apply_update s \<lparr>upd_agent_decision = None, upd_messages = Some [AIMessage c], upd_error = e\<rparr>,
                 executed @ [''faq_agent''])"
    by (simp add: nodes_build_graph next_dest_agents)
  moreover have "messages (apply_update s \<lparr>upd_agent_decision = None, upd_messages = Some [AIMessage c], upd_error = e\<rparr>)
      = messages s @ [AIMessage c]"
    by (simp add: apply_update_def add_messages_def)
  moreover have "agent_decision (apply_update s \<lparr>upd_agent_decision = None, upd_messages = Some [AIMessage c], upd_error = e\<rparr>)
      = agent_decision s"
    by (simp add: apply_update_def)
  ultimately show ?thesis by blast
qed

text \<open>The final decision and clarification, by the model's answer.\<close>

lemma override_logic_clarify:
  "override_logic b t Clarify c =
     (''clarify'', Some (case c of None \<Rightarrow> how_can_i_help_message
                         | Some m \<Rightarrow> if m = [] then how_can_i_help_message else m))"
  by (cases c) (simp_all add: override_logic_def)

lemma override_logic_agent1:
  "override_logic b t Agent1 c =
     (if b then (''agent1'', c)
      else (''clarify'', Some (case c of None \<Rightarrow> no_image_message
                         | Some m \<Rightarrow> if m = [] then no_image_message else m)))"
  by (cases c) (simp_all add: override_logic_def)

lemma override_logic_agent2:
  "override_logic b t Agent2 c =
     (if b \<and> \<not> (\<exists>kw \<in> set faq_keywords. occurs_ci kw t) then (''agent1'', None)
      else (''agent2'', c))"
  by (simp add: override_logic_def any_keyword_iff)

lemma route_request_shape:
  "(upd_agent_decision (route_request L s) = Some ''clarify''
      \<and> (\<exists>m. m \<noteq> [] \<and> upd_messages (route_request L s) = Some [AIMessage (Str m)]))
   \<or> (upd_agent_decision (route_request L s) \<in> {Some ''agent1'', Some ''agent2''}
      \<and> upd_messages (route_request L s) = None
      \<and> messages s \<noteq> [])"
proof (cases "messages s = []")
  case True
  then show ?thesis by (simp add: route_request_empty no_user_message_def AIMessage_eq)
next
  case False
  show ?thesis
  proof (cases "router_llm L (router_input (messages s))")
    case (Inl e)
    then show ?thesis
      using route_request_failure [OF False Inl] by (simp add: routing_issue_message_def AIMessage_eq)
  next
    case (Inr r)
    show ?thesis
    proof (cases "decision r")
      case Agent1
      then show ?thesis
        using route_request_success [OF False Inr] False no_image_message_nonempty
        by (simp add: override_logic_agent1 AIMessage_eq split: option.splits)
    next
      case Agent2
      then show ?thesis
        using route_request_success [OF False Inr] False
        by (simp add: override_logic_agent2 AIMessage_eq split: option.splits)
    next
      case Clarify
      then show ?thesis
        using route_request_success [OF False Inr] False how_can_i_help_message_nonempty
        by (simp add: override_logic_clarify AIMessage_eq split: option.splits)
    qed
  qed
qed

lemma run_router:
  "run (build_graph L) (Suc limit) (Name ''router'') s executed =
     run (build_graph L) limit
        (if agent_decision (apply_update s (route_request L s)) = Some ''agent1''
         then Name ''issue_detector''
         else if agent_decision (apply_update s (route_request L s)) = Some ''agent2''
         then Name ''faq_agent''
         else END)
        (apply_update s (route_request L s)) (executed @ [''router''])"
  by (simp add: nodes_build_graph next_dest_router)

lemma run_graph:
  "\<exists>fs c. run (build_graph L) (Suc (Suc limit)) (Name ''router'') s [] =
             Inr (fs, ''router'' # handlers_for (agent_decision fs))
         \<and> messages fs = messages s @ [AIMessage c]
         \<and> agent_decision fs = upd_agent_decision (route_request L s)
         \<and> agent_decision fs \<in> {Some ''agent1'', Some ''agent2'', Some ''clarify''}"
proof -
  let ?u = "route_request L s"
  let ?s1 = "apply_update s ?u"
  consider (clarify) m where "upd_agent_decision ?u = Some ''clarify''"
      "upd_messages ?u = Some [AIMessage (Str m)]"
    | (agent1) "upd_agent_decision ?u = Some ''agent1''" "upd_messages ?u = None"
        "messages s \<noteq> []"
    | (agent2) "upd_agent_decision ?u = Some ''agent2''" "upd_messages ?u = None"
        "messages s \<noteq> []"
    using route_request_shape [of L s] by auto
  then show ?thesis
  proof cases
    case clarify
    have d: "agent_decision ?s1 = Some ''clarify''"
      and m: "messages ?s1 = messages s @ [AIMessage (Str m)]"
      using clarify by (simp_all add: apply_update_def add_messages_def)
    have "run (build_graph L) (Suc (Suc limit)) (Name ''router'') s [] = Inr (?s1, [''router''])"
      unfolding run_router using d by simp
    then show ?thesis using d m clarify(1) by (auto simp: handlers_for_def)
  next
    case agent1
    have d: "agent_decision ?s1 = Some ''agent1''" and m: "messages ?s1 = messages s"
      using agent1 by (simp_all add: apply_update_def)
    then have ne: "messages ?s1 \<noteq> []" using agent1 by simp
    obtain fs c where r: "run (build_graph L) (Suc limit) (Name ''issue_detector'') ?s1 [''router'']
          = Inr (fs, [''router''] @ [''issue_detector''])"
      "messages fs = messages ?s1 @ [AIMessage c]" "agent_decision fs = agent_decision ?s1"
      using run_issue_detector [OF ne, of L limit "[''router'']"] by blast
    have "run (build_graph L) (Suc (Suc limit)) (Name ''router'') s [] =
            Inr (fs, [''router'', ''issue_detector''])"
      unfolding run_router [of L "Suc limit"] using d r(1) by simp
    then show ?thesis using r(2,3) d m agent1(1) by (auto simp: handlers_for_def)
  next
    case agent2
    have d: "agent_decision ?s1 = Some ''agent2''" and m: "messages ?s1 = messages s"
      using agent2 by (simp_all add: apply_update_def)
    then have ne: "messages ?s1 \<noteq> []" using agent2 by simp
    obtain fs c where r: "run (build_graph L) (Suc limit) (Name ''faq_agent'') ?s1 [''router'']
          = Inr (fs, [''router''] @ [''faq_agent''])"
      "messages fs = messages ?s1 @ [AIMessage c]" "agent_decision fs = agent_decision ?s1"
      using run_faq_agent [OF ne, of L limit "[''router'']"] by blast
    have "run (build_graph L) (Suc (Suc limit)) (Name ''router'') s [] =
            Inr (fs, [''router'', ''faq_agent''])"
      unfolding run_router [of L "Suc limit"] using d r(1) by simp
    then show ?thesis using r(2,3) d m agent2(1) by (auto simp: handlers_for_def)
  qed
qed

lemma recursion_limit_Suc: "recursion_limit = Suc (Suc 23)"
  by (simp add: recursion_limit_def)

lemma ainvoke_run:
  "ainvoke L checkpoint input =
     run (build_graph L) (Suc (Suc 23)) (Name ''router'') (merge_input checkpoint input) []"
  by (simp add: ainvoke_def Let_def recursion_limit_Suc build_graph_def)

text \<open>
  Claim C3.  After the router, the conditional edge leads to the issue detector on
  \<^verbatim>\<open>agent1\<close>, to the FAQ agent on \<^verbatim>\<open>agent2\<close>, and to
  \<^verbatim>\<open>END\<close> on \<^verbatim>\<open>clarify\<close> and on every other or missing decision; at
  \<^verbatim>\<open>END\<close> the run stops at once, executing nothing more; an agent node executes
  once and the run ends.  For every request, the nodes executed are the router followed
  by exactly the handler the final decision stands for (none on \<^verbatim>\<open>clarify\<close>), and
  the final decision is one of the three.
\<close>

theorem C3_exactly_one_handler:
  "next_dest (build_graph L) ''router'' s =
      Inr (if agent_decision s = Some ''agent1'' then Name ''issue_detector''
           else if agent_decision s = Some ''agent2'' then Name ''faq_agent''
           else END)
   \<and> run (build_graph L) limit END s executed = Inr (s, executed)
   \<and> (messages s \<noteq> [] \<longrightarrow>
        (\<exists>fs. run (build_graph L) (Suc limit) (Name ''issue_detector'') s executed
                = Inr (fs, executed @ [''issue_detector'']))
      \<and> (\<exists>fs. run (build_graph L) (Suc limit) (Name ''faq_agent'') s executed
                = Inr (fs, executed @ [''faq_agent''])))
   \<and> (\<exists>fs. ainvoke L checkpoint input
              = Inr (fs, ''router'' # handlers_for (agent_decision fs))
            \<and> agent_decision fs \<in> {Some ''agent1'', Some ''agent2'', Some ''clarify''})"
proof (intro conjI impI)
  show "next_dest (build_graph L) ''router'' s =
      Inr (if agent_decision s = Some ''agent1'' then Name ''issue_detector''
           else if agent_decision s = Some ''agent2'' then Name ''faq_agent''
           else END)"
    by (rule next_dest_router)
  show "run (build_graph L) limit END s executed = Inr (s, executed)" by simp
  show "\<exists>fs. run (build_graph L) (Suc limit) (Name ''issue_detector'') s executed
                = Inr (fs, executed @ [''issue_detector''])" if "messages s \<noteq> []"
    using run_issue_detector [OF that, of L limit executed] by blast
  show "\<exists>fs. run (build_graph L) (Suc limit) (Name ''faq_agent'') s executed
                = Inr (fs, executed @ [''faq_agent''])" if "messages s \<noteq> []"
    using run_faq_agent [OF that, of L limit executed] by blast
  show "\<exists>fs. ainvoke L checkpoint input
              = Inr (fs, ''router'' # handlers_for (agent_decision fs))
            \<and> agent_decision fs \<in> {Some ''agent1'', Some ''agent2'', Some ''clarify''}"
    unfolding ainvoke_run using run_graph [of L 23 "merge_input checkpoint input"] by blast
qed

theorem C3_exactly_one_handler_witness:
  "next_dest (build_graph (fixed_llms (Inl []) (Inr (Str ''This looks like mold.'')) (Inl [])))
      ''router''
      \<lparr>messages = [HumanMessage (Parts [text_part ''what is this stain?'', image_part])],
       agent_decision = Some ''agent1'', error = None\<rparr>
     = Inr (Name ''issue_detector'')
   \<and> next_dest (build_graph (fixed_llms (Inl []) (Inl []) (Inl [])))
      ''router''
      \<lparr>messages = [HumanMessage (Parts [text_part ''what is this stain?'', image_part])],
       agent_decision = Some ''agent3'', error = None\<rparr>
     = Inr END
   \<and> (\<exists>fs. run (build_graph (fixed_llms (Inl []) (Inr (Str ''This looks like mold.'')) (Inl [])))
             (Suc 0) (Name ''issue_detector'')
             \<lparr>messages = [HumanMessage (Parts [text_part ''what is this stain?'', image_part])],
              agent_decision = Some ''agent1'', error = None\<rparr> [''router'']
           = Inr (fs, [''router'', ''issue_detector'']))"
proof -
  let ?L = "fixed_llms (Inl []) (Inr (Str ''This looks like mold.'')) (Inl [])"
  let ?M = "fixed_llms (Inl []) (Inl []) (Inl [])"
  let ?s = "\<lparr>messages = [HumanMessage (Parts [text_part ''what is this stain?'', image_part])],
       agent_decision = Some ''agent1'', error = None\<rparr>"
  let ?s3 = "\<lparr>messages = [HumanMessage (Parts [text_part ''what is this stain?'', image_part])],
       agent_decision = Some ''agent3'', error = None\<rparr>"
  have ne: "messages ?s \<noteq> []" by simp
  have one: "\<exists>fs. run (build_graph ?L) (Suc 0) (Name ''issue_detector'') ?s [''router'']
                 = Inr (fs, [''router''] @ [''issue_detector''])"
    using C3_exactly_one_handler
            [where L = ?L and s = ?s and limit = 0 and executed = "[''router'']"] ne
    by blast
  have edge: "next_dest (build_graph ?L) ''router'' ?s = Inr (Name ''issue_detector'')"
    using C3_exactly_one_handler [where L = ?L and s = ?s] by simp
  have edge3: "next_dest (build_graph ?M) ''router'' ?s3 = Inr END"
    using C3_exactly_one_handler [where L = ?M and s = ?s3] by simp
  from one edge edge3 show ?thesis by (simp del: run.simps)
qed

text \<open>
  Claim C4.  When the router's model raises, the router returns
  \<^verbatim>\<open>clarify\<close> with the fixed apology and records the failure; the request ends
  normally with the apology appended, the error set, and the router the only node
  executed.
\<close>

theorem C4_router_failure_fallback:
  assumes "messages (merge_input checkpoint input) \<noteq> []"
    and "router_llm L (router_input (messages (merge_input checkpoint input))) = Inl e"
  shows "route_request L (merge_input checkpoint input) =
           \<lparr>upd_agent_decision = Some ''clarify'',
            upd_messages = Some [AIMessage (Str routing_issue_message)],
            upd_error = Some (''Routing failed: '' @ e)\<rparr>
       \<and> ainvoke L checkpoint input =
           Inr (\<lparr>messages = messages (merge_input checkpoint input)
                              @ [AIMessage (Str routing_issue_message)],
                 agent_decision = Some ''clarify'',
                 error = Some (''Routing failed: '' @ e)\<rparr>,
                [''router''])"
proof -
  have u: "route_request L (merge_input checkpoint input) =
           \<lparr>upd_agent_decision = Some ''clarify'',
            upd_messages = Some [AIMessage (Str routing_issue_message)],
            upd_error = Some (''Routing failed: '' @ e)\<rparr>"
    by (rule route_request_failure [OF assms])
  have "ainvoke L checkpoint input =
           Inr (\<lparr>messages = messages (merge_input checkpoint input)
                              @ [AIMessage (Str routing_issue_message)],
                 agent_decision = Some ''clarify'',
                 error = Some (''Routing failed: '' @ e)\<rparr>,
                [''router''])"
    unfolding ainvoke_run run_router u
    by (simp add: apply_update_def add_messages_def)
  with u show ?thesis by blast
qed

theorem C4_router_failure_fallback_witness:
  "ainvoke (fixed_llms (Inl ''Request timed out.'') (Inl []) (Inl [])) None
      (initial_state ''hello'' [])
   = Inr (\<lparr>messages = [HumanMessage (Parts [text_part ''hello'']),
                         AIMessage (Str routing_issue_message)],
           agent_decision = Some ''clarify'',
           error = Some ''Routing failed: Request timed out.''\<rparr>,
          [''router''])"
proof -
  let ?L = "fixed_llms (Inl ''Request timed out.'') (Inl []) (Inl [])"
  let ?i = "initial_state ''hello'' []"
  have m: "messages (merge_input None ?i) = [HumanMessage (Parts [text_part ''hello''])]"
    by (simp add: merge_input_def initial_state_def saved_messages_def add_messages_def)
  have a: "messages (merge_input None ?i) \<noteq> []" unfolding m by simp
  have b: "router_llm ?L (router_input (messages (merge_input None ?i)))
             = Inl ''Request timed out.''"
    by (simp add: fixed_llms_def)
  from C4_router_failure_fallback [OF a b] show ?thesis unfolding m by simp
qed

text \<open>
  Claim C5.  On a state without messages the router returns \<^verbatim>\<open>clarify\<close>, the
  fixed message and the error, and the graph ends after the router.
\<close>

theorem C5_empty_conversation:
  assumes "messages s = []"
  shows "route_request L s =
           \<lparr>upd_agent_decision = Some ''clarify'',
            upd_messages = Some [AIMessage (Str no_user_message)],
            upd_error = Some ''Routing failed: No messages in state.''\<rparr>
       \<and> run (build_graph L) recursion_limit (Name ''router'') s [] =
           Inr (\<lparr>messages = [AIMessage (Str no_user_message)],
                 agent_decision = Some ''clarify'',
                 error = Some ''Routing failed: No messages in state.''\<rparr>,
                [''router''])"
proof -
  have u: "route_request L s =
           \<lparr>upd_agent_decision = Some ''clarify'',
            upd_messages = Some [AIMessage (Str no_user_message)],
            upd_error = Some ''Routing failed: No messages in state.''\<rparr>"
    by (rule route_request_empty [OF assms])
  have "run (build_graph L) recursion_limit (Name ''router'') s [] =
           Inr (\<lparr>messages = [AIMessage (Str no_user_message)],
                 agent_decision = Some ''clarify'',
                 error = Some ''Routing failed: No messages in state.''\<rparr>,
                [''router''])"
    unfolding recursion_limit_Suc run_router u using assms
    by (simp add: apply_update_def add_messages_def)
  with u show ?thesis by blast
qed

theorem C5_empty_conversation_witness:
  "route_request (fixed_llms (Inl []) (Inl []) (Inl []))
      \<lparr>messages = [], agent_decision = None, error = None\<rparr>
   = \<lparr>upd_agent_decision = Some ''clarify'',
      upd_messages = Some [AIMessage (Str no_user_message)],
      upd_error = Some ''Routing failed: No messages in state.''\<rparr>
   \<and> run (build_graph (fixed_llms (Inl []) (Inl []) (Inl []))) recursion_limit
        (Name ''router'') \<lparr>messages = [], agent_decision = None, error = None\<rparr> []
     = Inr (\<lparr>messages = [AIMessage (Str no_user_message)],
             agent_decision = Some ''clarify'',
             error = Some ''Routing failed: No messages in state.''\<rparr>,
            [''router''])"
proof -
  have a: "messages \<lparr>messages = [], agent_decision = None, error = None\<rparr> = []" by simp
  from C5_empty_conversation [OF a] show ?thesis by blast
qed

text \<open>
  Claim C6, as stated, fails: without an image, a model answer \<^verbatim>\<open>agent1\<close> with no
  clarification ends in \<^verbatim>\<open>clarify\<close> with the text asking for an image, which is
  not the generic one.
\<close>

theorem C6_counterexample:
  "route_request
     (fixed_llms (Inr \<lparr>decision = Agent1, clarification_message = None\<rparr>) (Inl []) (Inl []))
     \<lparr>messages = [HumanMessage (Parts [text_part ''what is this stain on my ceiling?''])],
      agent_decision = None, error = None\<rparr>
   = \<lparr>upd_agent_decision = Some ''clarify'',
      upd_messages = Some [AIMessage (Str no_image_message)],
      upd_error = None\<rparr>
   \<and> no_image_message \<noteq> how_can_i_help_message"
  by code_simp

text \<open>
  Claim C6, amended.  After a successful classification, a final \<^verbatim>\<open>clarify\<close>
  adds exactly one assistant message: the model's clarification when it is not empty,
  else the generic text when the model itself answered \<^verbatim>\<open>clarify\<close> and the text
  asking for an image when it answered \<^verbatim>\<open>agent1\<close>.  A final
  \<^verbatim>\<open>agent1\<close> or \<^verbatim>\<open>agent2\<close> adds no message.
\<close>

theorem C6_clarify_turn:
  assumes "messages s \<noteq> []"
    and "router_llm L (router_input (messages s)) = Inr r"
  shows "(upd_agent_decision (route_request L s) = Some ''clarify'' \<longrightarrow>
            upd_messages (route_request L s) =
              Some [AIMessage (Str
                (case clarification_message r of
                   None \<Rightarrow> (if decision r = Clarify then how_can_i_help_message
                              else no_image_message)
                 | Some m \<Rightarrow> (if m \<noteq> [] then m
                               else if decision r = Clarify then how_can_i_help_message
                               else no_image_message)))])
       \<and> (upd_agent_decision (route_request L s) \<in> {Some ''agent1'', Some ''agent2''} \<longrightarrow>
            upd_messages (route_request L s) = None)
       \<and> upd_agent_decision (route_request L s)
            \<in> {Some ''agent1'', Some ''agent2'', Some ''clarify''}"
proof (cases "decision r")
  case Agent1
  then show ?thesis
    using route_request_success [OF assms] no_image_message_nonempty
    by (simp add: override_logic_agent1 split: option.splits)
next
  case Agent2
  then show ?thesis
    using route_request_success [OF assms]
    by (simp add: override_logic_agent2 split: option.splits)
next
  case Clarify
  then show ?thesis
    using route_request_success [OF assms] how_can_i_help_message_nonempty
    by (simp add: override_logic_clarify split: option.splits)
qed

theorem C6_clarify_turn_witness:
  "route_request
     (fixed_llms (Inr \<lparr>decision = Clarify, clarification_message = None\<rparr>) (Inl []) (Inl []))
     \<lparr>messages = [HumanMessage (Parts [text_part ''hello''])],
      agent_decision = None, error = None\<rparr>
   = \<lparr>upd_agent_decision = Some ''clarify'',
      upd_messages = Some [AIMessage (Str how_can_i_help_message)],
      upd_error = None\<rparr>"
proof -
  let ?r = "\<lparr>decision = Clarify, clarification_message = None\<rparr>"
  let ?L = "fixed_llms (Inr ?r) (Inl []) (Inl [])"
  let ?s = "\<lparr>messages = [HumanMessage (Parts [text_part ''hello''])],
      agent_decision = None, error = None\<rparr>"
  have a: "messages ?s \<noteq> []" by simp
  have b: "router_llm ?L (router_input (messages ?s)) = Inr ?r" by (simp add: fixed_llms_def)
  have d: "upd_agent_decision (route_request ?L ?s) = Some ''clarify''"
    and e: "upd_error (route_request ?L ?s) = None"
    by code_simp+
  from C6_clarify_turn [OF a b] d
  have "upd_messages (route_request ?L ?s) = Some [AIMessage (Str how_can_i_help_message)]"
    by simp
  with d e show ?thesis by (cases "route_request ?L ?s") simp
qed


section \<open>The text of a message\<close>

lemma images_concat_text: "concat_text_parts (image_parts images) = []"
  by (induction images) (auto simp: image_part_def split: option.splits)

text \<open>On the messages the endpoint builds the two readings agree: both give the query.\<close>

lemma endpoint_message_text:
  "get_text_from_message (HumanMessage (Parts (text_part query # image_parts images))) = query"
  "text_of_all_parts (HumanMessage (Parts (text_part query # image_parts images))) = query"
  by (simp_all add: get_text_from_message_def text_of_all_parts_def HumanMessage_def
        text_part_def images_concat_text)

lemma text_of_parts_first: "text_of_parts ps = first_text_part ps"
proof (induction ps)
  case Nil
  then show ?case by (simp add: first_text_part_def)
next
  case (Cons p ps)
  then show ?case by (cases p) (simp_all add: first_text_part_def)
qed

lemma concat_text_parts_filter:
  "concat_text_parts ps = concat (map part_text (filter is_text_part ps))"
proof (induction ps)
  case Nil
  then show ?case by simp
next
  case (Cons p ps)
  then show ?case by (cases p) simp_all
qed

lemma one_text_part_concat:
  assumes "length (filter is_text_part ps) \<le> 1"
  shows "concat_text_parts ps = first_text_part ps"
proof (cases "filter is_text_part ps")
  case Nil
  then show ?thesis by (simp add: concat_text_parts_filter first_text_part_def)
next
  case (Cons p rest)
  then have "rest = []" using assms by simp
  then show ?thesis using Cons by (simp add: concat_text_parts_filter first_text_part_def)
qed

text \<open>
  Claim C8, as stated, fails on a content with more than one text part:
  \<^verbatim>\<open>get_text_from_message\<close> returns inside its loop, at the first text part.  On
  the two text parts \<open>Is my\<close> and \<open>lease valid?\<close> it gives the first alone, not
  their concatenation, and so does the line of the transcript.
\<close>

theorem C8_counterexample:
  "get_text_from_message (HumanMessage (Parts [text_part ''Is my '', text_part ''lease valid?'']))
     = ''Is my ''
   \<and> text_of_all_parts (HumanMessage (Parts [text_part ''Is my '', text_part ''lease valid?'']))
     = ''Is my lease valid?''
   \<and> get_text_from_message (HumanMessage (Parts [text_part ''Is my '', text_part ''lease valid?'']))
     \<noteq> text_of_all_parts (HumanMessage (Parts [text_part ''Is my '', text_part ''lease valid?'']))
   \<and> transcript_line (AIMessage (Parts [text_part ''Check the '', text_part ''lease.'']))
     = ''Assistant: Check the ''"
  by code_simp

text \<open>
  Claim C8, amended.  For a message whose content is a list of parts, the text the
  router uses, and the text of its line in the transcript, is the text of the first text
  part (the empty string when there is none).  It is the concatenation of all text parts
  whenever the content has at most one text part; that is so for every message the
  endpoint builds, where both are the query.
\<close>

theorem C8_text_is_first_text_part:
  assumes "content m = Parts ps"
  shows "get_text_from_message m = first_text_part ps
       \<and> transcript_line m =
           (if role m = Human then ''User'' else ''Assistant'') @ '': '' @ first_text_part ps
       \<and> (length (filter is_text_part ps) \<le> 1
            \<longrightarrow> get_text_from_message m = text_of_all_parts m)
       \<and> get_text_from_message (HumanMessage (Parts (text_part query # image_parts images)))
           = query
       \<and> text_of_all_parts (HumanMessage (Parts (text_part query # image_parts images)))
           = query"
proof -
  have g: "get_text_from_message m = first_text_part ps"
    using assms by (simp add: get_text_from_message_def text_of_parts_first)
  have a: "text_of_all_parts m = concat_text_parts ps"
    using assms by (simp add: text_of_all_parts_def)
  have "length (filter is_text_part ps) \<le> 1 \<longrightarrow> get_text_from_message m = text_of_all_parts m"
    using g a one_text_part_concat [of ps] by simp
  moreover have "transcript_line m =
           (if role m = Human then ''User'' else ''Assistant'') @ '': '' @ first_text_part ps"
    using g by (simp add: transcript_line_def)
  ultimately show ?thesis using g endpoint_message_text [of query images] by simp
qed

theorem C8_text_is_first_text_part_witness:
  "get_text_from_message
      (HumanMessage (Parts [text_part ''there's mold on my ceiling'', image_part]))
     = ''there's mold on my ceiling''
   \<and> get_text_from_message
      (HumanMessage (Parts [text_part ''there's mold on my ceiling'', image_part]))
     = text_of_all_parts
      (HumanMessage (Parts [text_part ''there's mold on my ceiling'', image_part]))"
proof -
  let ?ps = "[text_part ''there's mold on my ceiling'', image_part]"
  let ?m = "HumanMessage (Parts ?ps)"
  have c: "content ?m = Parts ?ps" by (simp add: HumanMessage_def)
  have l: "length (filter is_text_part ?ps) \<le> 1"
    by (simp add: text_part_def image_part_def)
  have f: "first_text_part ?ps = ''there's mold on my ceiling''"
    by (simp add: first_text_part_def text_part_def image_part_def)
  note T = C8_text_is_first_text_part [OF c, where query = "[]" and images = "[]"]
  from T have g1: "get_text_from_message ?m = first_text_part ?ps" by blast
  from T l have g2: "get_text_from_message ?m = text_of_all_parts ?m" by blast
  from g1 g2 f show ?thesis by simp
qed


section \<open>One request\<close>

text \<open>
  Claim C9, as stated, fails: a request on a new session (no turn before it) that ends
  in the router with \<^verbatim>\<open>clarify\<close> leaves two turns, the user's and the router's,
  not one; a request answered by a handler leaves two turns as well.
\<close>

theorem C9_counterexample:
  "ainvoke (fixed_llms (Inr \<lparr>decision = Clarify,
                              clarification_message = Some ''Hello! How can I help you today?''\<rparr>)
              (Inl []) (Inl []))
      None (initial_state ''hello'' [])
    = Inr (\<lparr>messages = [HumanMessage (Parts [text_part ''hello'']),
                          AIMessage (Str ''Hello! How can I help you today?'')],
            agent_decision = Some ''clarify'', error = None\<rparr>,
           [''router''])
   \<and> ainvoke (fixed_llms (Inr \<lparr>decision = Agent2, clarification_message = None\<rparr>)
              (Inl []) (Inr (Str ''A deposit is usually returned within 30 days.'')))
      None (initial_state ''when do I get my deposit back?'' [])
    = Inr (\<lparr>messages = [HumanMessage (Parts [text_part ''when do I get my deposit back?'']),
                          AIMessage (Str ''A deposit is usually returned within 30 days.'')],
            agent_decision = Some ''agent2'', error = None\<rparr>,
           [''router'', ''faq_agent''])
   \<and> length [HumanMessage (Parts [text_part ''hello'']),
              AIMessage (Str ''Hello! How can I help you today?'')]
       \<noteq> length (saved_messages None) + 1"
  by code_simp

text \<open>
  Claim C9, amended.  Every request returns a final state whose messages are the saved
  ones, then the user's message, then exactly one assistant message: two turns more than
  before the request, whichever node added the reply.
\<close>

theorem C9_two_turns_per_request:
  "\<exists>fs executed c.
      ainvoke L checkpoint (initial_state query images) = Inr (fs, executed)
    \<and> messages fs = saved_messages checkpoint
         @ [HumanMessage (Parts (text_part query # image_parts images)), AIMessage c]
    \<and> length (messages fs) = length (saved_messages checkpoint) + 2"
proof -
  let ?s0 = "merge_input checkpoint (initial_state query images)"
  have m: "messages ?s0 = saved_messages checkpoint
             @ [HumanMessage (Parts (text_part query # image_parts images))]"
    by (simp add: merge_input_def initial_state_def add_messages_def)
  obtain fs c where r: "ainvoke L checkpoint (initial_state query images)
        = Inr (fs, ''router'' # handlers_for (agent_decision fs))"
      "messages fs = messages ?s0 @ [AIMessage c]"
    unfolding ainvoke_run using run_graph [of L 23 ?s0] by blast
  from r(2) have "messages fs = saved_messages checkpoint
         @ [HumanMessage (Parts (text_part query # image_parts images)), AIMessage c]"
    unfolding m by simp
  moreover from this have "length (messages fs) = length (saved_messages checkpoint) + 2"
    by simp
  ultimately show ?thesis using r(1) by blast
qed


section \<open>The response of the endpoint\<close>

lemma request_messages:
  "messages (merge_input checkpoint (initial_state query images)) =
     saved_messages checkpoint @ [HumanMessage (Parts (text_part query # image_parts images))]"
  by (simp add: merge_input_def initial_state_def add_messages_def)

lemma ainvoke_router_failure:
  assumes "messages (merge_input checkpoint input) \<noteq> []"
    and "router_llm L (router_input (messages (merge_input checkpoint input))) = Inl e"
  shows "ainvoke L checkpoint input =
           Inr (\<lparr>messages = messages (merge_input checkpoint input)
                              @ [AIMessage (Str routing_issue_message)],
                 agent_decision = Some ''clarify'',
                 error = Some (''Routing failed: '' @ e)\<rparr>,
                [''router''])"
  unfolding ainvoke_run run_router route_request_failure [OF assms]
  by (simp add: apply_update_def add_messages_def)

lemma route_request_agent_no_message:
  assumes "upd_agent_decision (route_request L s) = Some ''agent1''
         \<or> upd_agent_decision (route_request L s) = Some ''agent2''"
  shows "upd_messages (route_request L s) = None \<and> messages s \<noteq> []"
  using route_request_shape [of L s] assms by auto

lemma ainvoke_agent1_failure:
  assumes "upd_agent_decision (route_request L (merge_input checkpoint input)) = Some ''agent1''"
    and "agent1_llm L (agent1_input (messages (merge_input checkpoint input))) = Inl x"
  shows "\<exists>fs. ainvoke L checkpoint input = Inr (fs, [''router'', ''issue_detector''])
            \<and> messages fs = messages (merge_input checkpoint input)
                               @ [AIMessage (Str agent1_error_message)]
            \<and> agent_decision fs = Some ''agent1''
            \<and> error fs = Some (''Agent 1 failed: '' @ x)"
proof -
  let ?s0 = "merge_input checkpoint input"
  let ?s1 = "apply_update ?s0 (route_request L ?s0)"
  have nm: "upd_messages (route_request L ?s0) = None" and ne: "messages ?s0 \<noteq> []"
    using route_request_agent_no_message [of L ?s0] assms(1) by auto
  have d: "agent_decision ?s1 = Some ''agent1''" and m: "messages ?s1 = messages ?s0"
    using assms(1) nm by (simp_all add: apply_update_def)
  let ?u = "\<lparr>upd_agent_decision = None,
           upd_messages = Some [AIMessage (Str agent1_error_message)],
           upd_error = Some (''Agent 1 failed: '' @ x)\<rparr>"
  have ex: "execute_agent1 L ?s1 = Inr ?u"
    using assms(2) ne by (simp add: execute_agent1_def m)
  have r: "run (build_graph L) (Suc limit) (Name ''issue_detector'') ?s1 [''router'']
          = Inr (apply_update ?s1 ?u, [''router'', ''issue_detector''])" for limit
    using ex by (simp add: nodes_build_graph next_dest_agents)
  have e: "error (apply_update ?s1 ?u) = Some (''Agent 1 failed: '' @ x)"
    and ms: "messages (apply_update ?s1 ?u) = messages ?s0 @ [AIMessage (Str agent1_error_message)]"
    and ad: "agent_decision (apply_update ?s1 ?u) = Some ''agent1''"
    using d m by (simp_all add: apply_update_def [of ?s1] add_messages_def)
  have "ainvoke L checkpoint input = Inr (apply_update ?s1 ?u, [''router'', ''issue_detector''])"
    unfolding ainvoke_run run_router [of L "Suc 23"] using d r [of 23] by simp
  with e ms ad show ?thesis by blast
qed

lemma ainvoke_agent2_failure:
  assumes "upd_agent_decision (route_request L (merge_input checkpoint input)) = Some ''agent2''"
    and "agent2_llm L (agent2_input (messages (merge_input checkpoint input))) = Inl x"
  shows "\<exists>fs. ainvoke L checkpoint input = Inr (fs, [''router'', ''faq_agent''])
            \<and> messages fs = messages (merge_input checkpoint input)
                               @ [AIMessage (Str agent2_error_message)]
            \<and> agent_decision fs = Some ''agent2''
            \<and> error fs = Some (''Agent 2 failed: '' @ x)"
proof -
  let ?s0 = "merge_input checkpoint input"
  let ?s1 = "apply_update ?s0 (route_request L ?s0)"
  have nm: "upd_messages (route_request L ?s0) = None" and ne: "messages ?s0 \<noteq> []"
    using route_request_agent_no_message [of L ?s0] assms(1) by auto
  have d: "agent_decision ?s1 = Some ''agent2''" and m: "messages ?s1 = messages ?s0"
    using assms(1) nm by (simp_all add: apply_update_def)
  let ?u = "\<lparr>upd_agent_decision = None,
           upd_messages = Some [AIMessage (Str agent2_error_message)],
           upd_error = Some (''Agent 2 failed: '' @ x)\<rparr>"
  have ex: "execute_agent2 L ?s1 = Inr ?u"
    using assms(2) ne by (simp add: execute_agent2_def m)
  have r: "run (build_graph L) (Suc limit) (Name ''faq_agent'') ?s1 [''router'']
          = Inr (apply_update ?s1 ?u, [''router'', ''faq_agent''])" for limit
    using ex by (simp add: nodes_build_graph next_dest_agents)
  have e: "error (apply_update ?s1 ?u) = Some (''Agent 2 failed: '' @ x)"
    and ms: "messages (apply_update ?s1 ?u) = messages ?s0 @ [AIMessage (Str agent2_error_message)]"
    and ad: "agent_decision (apply_update ?s1 ?u) = Some ''agent2''"
    using d m by (simp_all add: apply_update_def [of ?s1] add_messages_def)
  have "ainvoke L checkpoint input = Inr (apply_update ?s1 ?u, [''router'', ''faq_agent''])"
    unfolding ainvoke_run run_router [of L "Suc 23"] using d r [of 23] by simp
  with e ms ad show ?thesis by blast
qed

lemma response_text_of_error:
  assumes "error fs = Some e" and "e \<noteq> []"
  shows "response_text_of fs = Inr (''An error occurred: '' @ e)"
  using assms by (simp add: response_text_of_def Let_def)

lemma chat_endpoint_error:
  assumes "sid \<noteq> []"
    and "ainvoke L checkpoint (initial_state query images) = Inr (fs, executed)"
    and "error fs = Some e" and "e \<noteq> []"
  shows "chat_endpoint L checkpoint sid query images =
           Inr \<lparr>response = ''An error occurred: '' @ e, session_id = sid\<rparr>"
  using assms by (simp add: chat_endpoint_def response_text_of_error)

lemma apologies_differ:
  "''An error occurred: '' @ e \<noteq> routing_issue_message"
  "''An error occurred: '' @ e \<noteq> agent1_error_message"
  "''An error occurred: '' @ e \<noteq> agent2_error_message"
  by (simp_all add: routing_issue_message_def agent1_error_message_def agent2_error_message_def)

text \<open>
  Claim C7, as stated, fails: when the router's model raises with the text
  \<open>Request timed out.\<close>, the response of the endpoint carries that text.
\<close>

theorem C7_counterexample:
  "chat_endpoint (fixed_llms (Inl ''Request timed out.'') (Inl []) (Inl []))
      None ''session-1'' ''hello'' []
     = Inr \<lparr>response = ''An error occurred: Routing failed: Request timed out.'',
            session_id = ''session-1''\<rparr>
   \<and> str_in ''Request timed out.'' ''An error occurred: Routing failed: Request timed out.''"
  by code_simp

text \<open>
  Claim C7, amended.  Whenever a request ends with a non-empty error recorded, the
  response text is \<open>An error occurred:\<close> followed by the recorded error.  When the
  router's model, agent 1's or agent 2's raises, the request still returns: the error
  recorded is \<open>Routing failed:\<close>, \<open>Agent 1 failed:\<close> or \<open>Agent 2 failed:\<close>
  followed by the text of the exception, the component's fixed apology is the one
  assistant message appended after the user's, and the response is the error text, which
  holds the text of the exception and is not the apology.
\<close>

theorem C7_error_text_in_response:
  assumes "sid \<noteq> []"
  shows "(\<forall>fs executed e.
            ainvoke L checkpoint (initial_state query images) = Inr (fs, executed)
            \<and> error fs = Some e \<and> e \<noteq> []
            \<longrightarrow> chat_endpoint L checkpoint sid query images =
                  Inr \<lparr>response = ''An error occurred: '' @ e, session_id = sid\<rparr>)
       \<and> (\<forall>x. router_llm L (router_input
                  (messages (merge_input checkpoint (initial_state query images)))) = Inl x
            \<longrightarrow> ainvoke L checkpoint (initial_state query images) =
                  Inr (\<lparr>messages = saved_messages checkpoint
                          @ [HumanMessage (Parts (text_part query # image_parts images)),
                             AIMessage (Str routing_issue_message)],
                        agent_decision = Some ''clarify'',
                        error = Some (''Routing failed: '' @ x)\<rparr>,
                       [''router''])
              \<and> chat_endpoint L checkpoint sid query images =
                  Inr \<lparr>response = ''An error occurred: Routing failed: '' @ x,
                       session_id = sid\<rparr>
              \<and> ''An error occurred: Routing failed: '' @ x \<noteq> routing_issue_message)
       \<and> (\<forall>x. upd_agent_decision (route_request L
                  (merge_input checkpoint (initial_state query images))) = Some ''agent1''
              \<and> agent1_llm L (agent1_input
                  (messages (merge_input checkpoint (initial_state query images)))) = Inl x
            \<longrightarrow> (\<exists>fs. ainvoke L checkpoint (initial_state query images)
                         = Inr (fs, [''router'', ''issue_detector''])
                     \<and> messages fs = saved_messages checkpoint
                          @ [HumanMessage (Parts (text_part query # image_parts images)),
                             AIMessage (Str agent1_error_message)]
                     \<and> error fs = Some (''Agent 1 failed: '' @ x))
              \<and> chat_endpoint L checkpoint sid query images =
                  Inr \<lparr>response = ''An error occurred: Agent 1 failed: '' @ x,
                       session_id = sid\<rparr>
              \<and> ''An error occurred: Agent 1 failed: '' @ x \<noteq> agent1_error_message)
       \<and> (\<forall>x. upd_agent_decision (route_request L
                  (merge_input checkpoint (initial_state query images))) = Some ''agent2''
              \<and> agent2_llm L (agent2_input
                  (messages (merge_input checkpoint (initial_state query images)))) = Inl x
            \<longrightarrow> (\<exists>fs. ainvoke L checkpoint (initial_state query images)
                         = Inr (fs, [''router'', ''faq_agent''])
                     \<and> messages fs = saved_messages checkpoint
                          @ [HumanMessage (Parts (text_part query # image_parts images)),
                             AIMessage (Str agent2_error_message)]
                     \<and> error fs = Some (''Agent 2 failed: '' @ x))
              \<and> chat_endpoint L checkpoint sid query images =
                  Inr \<lparr>response = ''An error occurred: Agent 2 failed: '' @ x,
                       session_id = sid\<rparr>
              \<and> ''An error occurred: Agent 2 failed: '' @ x \<noteq> agent2_error_message)"
proof -
  let ?i = "initial_state query images"
  let ?s0 = "merge_input checkpoint ?i"
  let ?user = "HumanMessage (Parts (text_part query # image_parts images))"
  have ms: "messages ?s0 = saved_messages checkpoint @ [?user]"
    by (rule request_messages)
  have ne: "messages ?s0 \<noteq> []" unfolding ms by simp
  have general: "chat_endpoint L checkpoint sid query images =
                  Inr \<lparr>response = ''An error occurred: '' @ e, session_id = sid\<rparr>"
    if "ainvoke L checkpoint ?i = Inr (fs, executed)" "error fs = Some e" "e \<noteq> []"
    for fs executed e
    using chat_endpoint_error [OF assms that] .
  have router: "ainvoke L checkpoint ?i =
                  Inr (\<lparr>messages = saved_messages checkpoint
                          @ [?user, AIMessage (Str routing_issue_message)],
                        agent_decision = Some ''clarify'',
                        error = Some (''Routing failed: '' @ x)\<rparr>,
                       [''router''])
              \<and> chat_endpoint L checkpoint sid query images =
                  Inr \<lparr>response = ''An error occurred: Routing failed: '' @ x,
                       session_id = sid\<rparr>
              \<and> ''An error occurred: Routing failed: '' @ x \<noteq> routing_issue_message"
    if a: "router_llm L (router_input (messages ?s0)) = Inl x" for x
  proof -
    have r: "ainvoke L checkpoint ?i =
                  Inr (\<lparr>messages = saved_messages checkpoint
                          @ [?user, AIMessage (Str routing_issue_message)],
                        agent_decision = Some ''clarify'',
                        error = Some (''Routing failed: '' @ x)\<rparr>,
                       [''router''])"
      using ainvoke_router_failure [OF ne a] unfolding ms by simp
    have "chat_endpoint L checkpoint sid query images =
                  Inr \<lparr>response = ''An error occurred: '' @ (''Routing failed: '' @ x),
                       session_id = sid\<rparr>"
      by (rule general [OF r]) simp_all
    then show ?thesis using r apologies_differ(1) [of "''Routing failed: '' @ x"] by simp
  qed
  have agent1: "(\<exists>fs. ainvoke L checkpoint ?i = Inr (fs, [''router'', ''issue_detector''])
                     \<and> messages fs = saved_messages checkpoint
                          @ [?user, AIMessage (Str agent1_error_message)]
                     \<and> error fs = Some (''Agent 1 failed: '' @ x))
              \<and> chat_endpoint L checkpoint sid query images =
                  Inr \<lparr>response = ''An error occurred: Agent 1 failed: '' @ x,
                       session_id = sid\<rparr>
              \<and> ''An error occurred: Agent 1 failed: '' @ x \<noteq> agent1_error_message"
    if a: "upd_agent_decision (route_request L ?s0) = Some ''agent1''"
          "agent1_llm L (agent1_input (messages ?s0)) = Inl x" for x
  proof -
    obtain fs where r: "ainvoke L checkpoint ?i = Inr (fs, [''router'', ''issue_detector''])"
        "messages fs = messages ?s0 @ [AIMessage (Str agent1_error_message)]"
        "error fs = Some (''Agent 1 failed: '' @ x)"
      using ainvoke_agent1_failure [OF a] by blast
    have m: "messages fs = saved_messages checkpoint
                          @ [?user, AIMessage (Str agent1_error_message)]"
      using r(2) unfolding ms by simp
    have "chat_endpoint L checkpoint sid query images =
                  Inr \<lparr>response = ''An error occurred: '' @ (''Agent 1 failed: '' @ x),
                       session_id = sid\<rparr>"
      by (rule general [OF r(1) r(3)]) simp
    then show ?thesis
      using r(1) r(3) m apologies_differ(2) [of "''Agent 1 failed: '' @ x"] by auto
  qed
  have agent2: "(\<exists>fs. ainvoke L checkpoint ?i = Inr (fs, [''router'', ''faq_agent''])
                     \<and> messages fs = saved_messages checkpoint
                          @ [?user, AIMessage (Str agent2_error_message)]
                     \<and> error fs = Some (''Agent 2 failed: '' @ x))
              \<and> chat_endpoint L checkpoint sid query images =
                  Inr \<lparr>response = ''An error occurred: Agent 2 failed: '' @ x,
                       session_id = sid\<rparr>
              \<and> ''An error occurred: Agent 2 failed: '' @ x \<noteq> agent2_error_message"
    if a: "upd_agent_decision (route_request L ?s0) = Some ''agent2''"
          "agent2_llm L (agent2_input (messages ?s0)) = Inl x" for x
  proof -
    obtain fs where r: "ainvoke L checkpoint ?i = Inr (fs, [''router'', ''faq_agent''])"
        "messages fs = messages ?s0 @ [AIMessage (Str agent2_error_message)]"
        "error fs = Some (''Agent 2 failed: '' @ x)"
      using ainvoke_agent2_failure [OF a] by blast
    have m: "messages fs = saved_messages checkpoint
                          @ [?user, AIMessage (Str agent2_error_message)]"
      using r(2) unfolding ms by simp
    have "chat_endpoint L checkpoint sid query images =
                  Inr \<lparr>response = ''An error occurred: '' @ (''Agent 2 failed: '' @ x),
                       session_id = sid\<rparr>"
      by (rule general [OF r(1) r(3)]) simp
    then show ?thesis
      using r(1) r(3) m apologies_differ(3) [of "''Agent 2 failed: '' @ x"] by auto
  qed
  show ?thesis
  proof (intro conjI allI impI)
    fix fs executed e
    assume "ainvoke L checkpoint ?i = Inr (fs, executed) \<and> error fs = Some e \<and> e \<noteq> []"
    then show "chat_endpoint L checkpoint sid query images =
                  Inr \<lparr>response = ''An error occurred: '' @ e, session_id = sid\<rparr>"
      using general by blast
  qed (use router agent1 agent2 in blast)+
qed

theorem C7_error_text_in_response_witness:
  "chat_endpoint
     (fixed_llms (Inr \<lparr>decision = Agent1, clarification_message = None\<rparr>)
        (Inl ''Connection error.'') (Inl []))
     None ''session-1'' ''what is this stain?''
     [\<lparr>content_type = Some ''image/png'', read_bytes = Some ''PNG''\<rparr>]
   = Inr \<lparr>response = ''An error occurred: Agent 1 failed: Connection error.'',
          session_id = ''session-1''\<rparr>
   \<and> (\<exists>fs. ainvoke
          (fixed_llms (Inr \<lparr>decision = Agent1, clarification_message = None\<rparr>)
             (Inl ''Connection error.'') (Inl []))
          None
          (initial_state ''what is this stain?''
             [\<lparr>content_type = Some ''image/png'', read_bytes = Some ''PNG''\<rparr>])
         = Inr (fs, [''router'', ''issue_detector''])
       \<and> messages fs =
           [HumanMessage (Parts [text_part ''what is this stain?'', image_part]),
            AIMessage (Str agent1_error_message)]
       \<and> error fs = Some ''Agent 1 failed: Connection error.'')"
proof -
  let ?L = "fixed_llms (Inr \<lparr>decision = Agent1, clarification_message = None\<rparr>)
        (Inl ''Connection error.'') (Inl [])"
  let ?imgs = "[\<lparr>content_type = Some ''image/png'', read_bytes = Some ''PNG''\<rparr>]"
  let ?s0 = "merge_input None (initial_state ''what is this stain?'' ?imgs)"
  have sid: "''session-1'' \<noteq> []" by simp
  have d: "upd_agent_decision (route_request ?L ?s0) = Some ''agent1''" by code_simp
  have f: "agent1_llm ?L (agent1_input (messages ?s0)) = Inl ''Connection error.''"
    by (simp add: fixed_llms_def)
  have p: "image_parts ?imgs = [image_part]" by simp
  note T = C7_error_text_in_response [OF sid, of ?L None "''what is this stain?''" ?imgs]
  from T d f have a: "chat_endpoint ?L None ''session-1'' ''what is this stain?'' ?imgs
      = Inr \<lparr>response = ''An error occurred: Agent 1 failed: '' @ ''Connection error.'',
             session_id = ''session-1''\<rparr>"
    by blast
  from T d f have b: "\<exists>fs. ainvoke ?L None (initial_state ''what is this stain?'' ?imgs)
         = Inr (fs, [''router'', ''issue_detector''])
       \<and> messages fs = saved_messages None
           @ [HumanMessage (Parts (text_part ''what is this stain?'' # image_parts ?imgs)),
              AIMessage (Str agent1_error_message)]
       \<and> error fs = Some (''Agent 1 failed: '' @ ''Connection error.'')"
    by blast
  from a b show ?thesis unfolding p by (simp add: saved_messages_def)
qed


end
